theory Spec2Isabelle
  imports Main "HOL-Library.Sublist" "HOL-Library.AList"
begin

section \<open>The per-host task daemon (\<open>ai-server-daemon.py\<close>)\<close>

text \<open>
  The daemon keeps its tasks in a Python dict (insertion ordered, so an association list
  with distinct keys), a FIFO queue of task ids, one JSON file per task under
  \<open>tasks/\<close>, log files, and talks to \<open>tmux\<close> through \<open>subprocess.run\<close>. The model
  passes this state explicitly. What the outside world answers (tmux, the JSON and
  datetime libraries, floating point) is read from an environment record; the clock
  readings of \<open>datetime.now()\<close> are arguments of the operation that reads them.
  Characters are modelled with their ASCII meaning (\<open>\d\<close>, \<open>\s\<close>, \<open>str.lower\<close>), and file
  system calls are taken to succeed.
\<close>

subsection \<open>Data model\<close>

record task =
  task_id :: string
  tool :: "string option"
  command :: "string option"
  parameters :: "(string \<times> string) list"
  working_dir :: "string option"
  priority :: string
  timeout :: "nat option"
  status :: string
  progress :: int
  created_at :: string
  started_at :: "string option"
  completed_at :: "string option"
  error_message :: "string option"
  session_name :: string
  log_file :: string
  result_file :: string
  pid :: "nat option"

text \<open>The fields of a submission that \<open>create_task\<close> reads with \<open>task_request.get\<close>:
  an absent key reads as \<open>None\<close>.\<close>

record task_request =
  req_tool :: "string option"
  req_command :: "string option"
  req_parameters :: "(string \<times> string) list option"
  req_working_dir :: "string option"
  req_priority :: "string option"
  req_timeout :: "nat option"

record tool_config =
  tc_command :: string
  env_setup :: "string list"
  tc_working_dir :: "string option"
  tc_timeout :: "nat option"

text \<open>What \<open>subprocess.run\<close> gives back: a return code, or an exception with its text.\<close>

datatype run_result = Returned int | Raised string

datatype tmux_call =
    KillSession string
  | NewSession string string
  | SendKeys string string
  | HasSession string

record env =
  workspace :: string
  ai_tools :: "(string \<times> tool_config) list"
  log_retention_days :: nat
  json_dumps :: "task \<Rightarrow> string"
  json_loads :: "string \<Rightarrow> task option"
  params_dumps :: "(string \<times> string) list \<Rightarrow> string"
  fromisoformat :: "string \<Rightarrow> int option"
  float_percent :: "nat \<Rightarrow> nat \<Rightarrow> int option"
  expanduser :: "string \<Rightarrow> string"
  tmux :: "tmux_call \<Rightarrow> run_result"
  called_process_error :: "tmux_call \<Rightarrow> int \<Rightarrow> string"

text \<open>
  \<open>json_loads\<close> is \<open>None\<close> where \<open>json.load\<close> raises (a loaded record has every
  field); \<open>fromisoformat\<close> gives microseconds, \<open>None\<close> where parsing or the later
  comparison raises; \<open>float_percent c t\<close> is Python's \<open>int((c / t) * 100)\<close> on floats,
  \<open>None\<close> where it raises (\<open>t = 0\<close>); \<open>called_process_error\<close> is the text of the
  \<open>CalledProcessError\<close> that \<open>check=True\<close> raises on a non-zero return code.
\<close>

record daemon =
  tasks :: "(string \<times> task) list"
  task_queue :: "string list"
  task_files :: "(string \<times> string) list"
  files :: "string \<Rightarrow> string option"
  tmux_trace :: "tmux_call list"

text \<open>\<open>task_files\<close> is the directory \<open>tasks/\<close>: the entry \<open>(n, text)\<close> is the file
  \<open>tasks/n.json\<close>. \<open>files\<close> holds every other file by its path. \<open>tmux_trace\<close> records
  the tmux commands issued, oldest first.\<close>

subsection \<open>Strings and the regular expressions of the source\<close>

fun contains :: "string \<Rightarrow> string \<Rightarrow> bool" where
  "contains p [] = (p = [])"
| "contains p (c # cs) = (prefix p (c # cs) \<or> contains p cs)"

fun split_on :: "char \<Rightarrow> string \<Rightarrow> string list" where
  "split_on d [] = [[]]"
| "split_on d (c # cs) =
     (if c = d then [] # split_on d cs
      else (case split_on d cs of [] \<Rightarrow> [[c]] | l # ls \<Rightarrow> (c # l) # ls))"

definition lower_char :: "char \<Rightarrow> char" where
  "lower_char c =
     (case map_of (zip ''ABCDEFGHIJKLMNOPQRSTUVWXYZ'' ''abcdefghijklmnopqrstuvwxyz'') c of
        None \<Rightarrow> c | Some l \<Rightarrow> l)"

definition lower :: "string \<Rightarrow> string" where
  "lower s = map lower_char s"

definition is_digit :: "char \<Rightarrow> bool" where
  "is_digit c = (c \<in> set ''0123456789'')"

definition is_space :: "char \<Rightarrow> bool" where
  "is_space c = (c \<in> set [CHR '' '', CHR 0x09, CHR 0x0A, CHR 0x0B, CHR 0x0C, CHR 0x0D,
                            CHR 0x1C, CHR 0x1D, CHR 0x1E, CHR 0x1F])"

definition digit_val :: "char \<Rightarrow> nat" where
  "digit_val c = (case map_of (zip ''0123456789'' [0, 1, 2, 3, 4, 5, 6, 7, 8, 9]) c of
                    None \<Rightarrow> 0 | Some v \<Rightarrow> v)"

definition int_of_digits :: "string \<Rightarrow> nat" where
  "int_of_digits ds = foldl (\<lambda>a c. 10 * a + digit_val c) 0 ds"

definition digit_char :: "nat \<Rightarrow> char" where
  "digit_char n = ''0123456789'' ! (n mod 10)"

function str_nat :: "nat \<Rightarrow> string" where
  "str_nat n = (if n < 10 then [digit_char n] else str_nat (n div 10) @ [digit_char n])"
  by pat_completeness auto
termination
  by (relation "measure (\<lambda>n. n)") auto

text \<open>
  A matcher looks for one match of a pattern at the start of its input and returns the
  group it captured with the input left after the match. Each pattern of the source
  matches in at most one way at a given position (a greedy run is followed by a
  character outside of it), so no backtracking is lost.
  \<open>findall_from\<close> is \<open>re.findall\<close>: matches are taken left to right and do not
  overlap; its counter is the number of characters of the last match still to skip.
  \<open>search\<close> is \<open>re.search\<close>: the leftmost match.
\<close>

fun findall_from :: "(string \<Rightarrow> ('a \<times> string) option) \<Rightarrow> nat \<Rightarrow> string \<Rightarrow> 'a list" where
  "findall_from m k [] = []"
| "findall_from m k (c # cs) =
     (if 0 < k then findall_from m (k - 1) cs
      else (case m (c # cs) of
              None \<Rightarrow> findall_from m 0 cs
            | Some (g, rest) \<Rightarrow> g # findall_from m (length cs - length rest) cs))"

definition findall :: "(string \<Rightarrow> ('a \<times> string) option) \<Rightarrow> string \<Rightarrow> 'a list" where
  "findall m s = findall_from m 0 s"

fun search :: "(string \<Rightarrow> ('a \<times> string) option) \<Rightarrow> string \<Rightarrow> 'a option" where
  "search m [] = None"
| "search m (c # cs) =
     (case m (c # cs) of None \<Rightarrow> search m cs | Some (g, rest) \<Rightarrow> Some g)"

text \<open>\<open>[Pp]rogress:?\s*(\d+)%\<close>\<close>

definition match_progress :: "string \<Rightarrow> (string \<times> string) option" where
  "match_progress s =
     (case s of
        [] \<Rightarrow> None
      | c # r \<Rightarrow>
          if (c = CHR ''P'' \<or> c = CHR ''p'') \<and> prefix ''rogress'' r then
            (let r1 = drop 7 r;
                 r2 = (if prefix '':'' r1 then drop 1 r1 else r1);
                 r3 = dropWhile is_space r2;
                 ds = takeWhile is_digit r3;
                 r4 = dropWhile is_digit r3
             in if ds \<noteq> [] \<and> prefix ''%'' r4 then Some (ds, drop 1 r4) else None)
          else None)"

text \<open>\<open>(\d+)%\s+complete\<close>\<close>

definition match_complete :: "string \<Rightarrow> (string \<times> string) option" where
  "match_complete s =
     (let ds = takeWhile is_digit s;
          r1 = dropWhile is_digit s
      in if ds \<noteq> [] \<and> prefix ''%'' r1 then
           (let r2 = drop 1 r1;
                ws = takeWhile is_space r2;
                r3 = dropWhile is_space r2
            in if ws \<noteq> [] \<and> prefix ''complete'' r3 then Some (ds, drop 8 r3) else None)
         else None)"

text \<open>\<open>(\d+)\s+of\s+(\d+)\<close>, the end of the third pattern\<close>

definition match_of :: "string \<Rightarrow> ((string \<times> string) \<times> string) option" where
  "match_of s =
     (let d1 = takeWhile is_digit s;
          r1 = dropWhile is_digit s;
          w1 = takeWhile is_space r1;
          r2 = dropWhile is_space r1
      in if d1 \<noteq> [] \<and> w1 \<noteq> [] \<and> prefix ''of'' r2 then
           (let r3 = drop 2 r2;
                w2 = takeWhile is_space r3;
                r4 = dropWhile is_space r3;
                d2 = takeWhile is_digit r4
            in if w2 \<noteq> [] \<and> d2 \<noteq> [] then Some ((d1, d2), dropWhile is_digit r4)
               else None)
         else None)"

text \<open>The lazy \<open>.*?\<close>: the end of the pattern is tried at once, and after each further
  character that is not a newline.\<close>

fun lazy_of :: "string \<Rightarrow> ((string \<times> string) \<times> string) option" where
  "lazy_of [] = None"
| "lazy_of (c # cs) =
     (case match_of (c # cs) of
        Some r \<Rightarrow> Some r
      | None \<Rightarrow> if c = CHR 0x0A then None else lazy_of cs)"

text \<open>\<open>Processing.*?(\d+)\s+of\s+(\d+)\<close>\<close>

definition match_processing :: "string \<Rightarrow> ((string \<times> string) \<times> string) option" where
  "match_processing s =
     (if prefix ''Processing'' s then lazy_of (drop 10 s) else None)"

text \<open>\<open>\[TASK_COMPLETED:{task_id}:([^\]]+)\]\<close>, for a task id without regular-expression
  metacharacters (the ids \<open>create_task\<close> builds are letters, digits and hyphens)\<close>

definition completed_prefix :: "string \<Rightarrow> string" where
  "completed_prefix tid = ''[TASK_COMPLETED:'' @ tid @ '':''"

definition completed_marker :: "string \<Rightarrow> string \<Rightarrow> string" where
  "completed_marker tid stamp = completed_prefix tid @ stamp @ '']''"

definition failed_prefix :: "string \<Rightarrow> string" where
  "failed_prefix tid = ''[TASK_FAILED:'' @ tid @ '':''"

definition not_bracket :: "char \<Rightarrow> bool" where
  "not_bracket c = (c \<noteq> CHR '']'')"

definition match_completed :: "string \<Rightarrow> string \<Rightarrow> (string \<times> string) option" where
  "match_completed tid s =
     (if prefix (completed_prefix tid) s then
        (let r = drop (length (completed_prefix tid)) s;
             ts = takeWhile not_bracket r;
             r1 = dropWhile not_bracket r
         in if ts \<noteq> [] \<and> r1 \<noteq> [] then Some (ts, drop 1 r1) else None)
      else None)"

subsection \<open>Task record store\<close>

text \<open>
  \<open>save_task\<close> is \<open>open(task_file, 'w')\<close> followed by \<open>json.dump\<close>: opening for writing
  creates or truncates the file, then the text is written. \<open>save_task_states\<close> lists the
  states of the disk after each of the two statements; \<open>save_task\<close> is the last one.
\<close>

definition save_task_states :: "env \<Rightarrow> task \<Rightarrow> daemon \<Rightarrow> daemon list" where
  "save_task_states e t s =
     [s\<lparr>task_files := AList.update (task_id t) [] (task_files s)\<rparr>,
      s\<lparr>task_files := AList.update (task_id t) (json_dumps e t) (task_files s)\<rparr>]"

definition save_task :: "env \<Rightarrow> task \<Rightarrow> daemon \<Rightarrow> daemon" where
  "save_task e t s = last (save_task_states e t s)"

text \<open>Assigning to a key of the task's dict, which \<open>self.tasks\<close> holds by reference.\<close>

definition set_task :: "string \<Rightarrow> task \<Rightarrow> daemon \<Rightarrow> daemon" where
  "set_task tid t s = s\<lparr>tasks := AList.update tid t (tasks s)\<rparr>"

subsection \<open>Submission\<close>

datatype error = ValueError string

text \<open>\<open>not task.get(field)\<close>: the field is absent, \<open>None\<close> or the empty string.\<close>

definition falsy :: "string option \<Rightarrow> bool" where
  "falsy v = (case v of None \<Rightarrow> True | Some x \<Rightarrow> x = [])"

definition validate_task :: "env \<Rightarrow> task \<Rightarrow> bool" where
  "validate_task e t =
     (if falsy (tool t) then False
      else if falsy (command t) then False
      else (case tool t of
              None \<Rightarrow> False
            | Some n \<Rightarrow> (case map_of (ai_tools e) n of None \<Rightarrow> False | Some tc \<Rightarrow> True)))"

text \<open>\<open>stamp\<close> is \<open>datetime.now().strftime('%Y%m%d-%H%M%S')\<close>, \<open>hex8\<close> the first eight
  hex digits of a fresh uuid, \<open>created\<close> the second clock reading in ISO format.\<close>

definition new_task :: "env \<Rightarrow> task_request \<Rightarrow> string \<Rightarrow> string \<Rightarrow> task" where
  "new_task e req tid created =
     \<lparr>task_id = tid,
      tool = req_tool req,
      command = req_command req,
      parameters = (case req_parameters req of None \<Rightarrow> [] | Some p \<Rightarrow> p),
      working_dir = req_working_dir req,
      priority = (case req_priority req of None \<Rightarrow> ''medium'' | Some p \<Rightarrow> p),
      timeout = req_timeout req,
      status = ''queued'',
      progress = 0,
      created_at = created,
      started_at = None,
      completed_at = None,
      error_message = None,
      session_name = ''ai-'' @ tid,
      log_file = workspace e @ ''/logs/'' @ tid @ ''.log'',
      result_file = workspace e @ ''/results/'' @ tid @ ''.json'',
      pid = None\<rparr>"

text \<open>The result is the raised error or the new id, with the state the call leaves.\<close>

definition create_task ::
  "env \<Rightarrow> task_request \<Rightarrow> string \<Rightarrow> string \<Rightarrow> string \<Rightarrow> daemon \<Rightarrow> (error + string) \<times> daemon" where
  "create_task e req stamp hex8 created s =
     (let tid = ''task-'' @ stamp @ ''-'' @ hex8;
          t = new_task e req tid created
      in if \<not> validate_task e t then (Inl (ValueError ''Invalid task configuration''), s)
         else (Inr tid,
               (set_task tid t (save_task e t s))\<lparr>task_queue := task_queue s @ [tid]\<rparr>))"

subsection \<open>Session calls\<close>

definition issue :: "tmux_call \<Rightarrow> daemon \<Rightarrow> daemon" where
  "issue c s = s\<lparr>tmux_trace := tmux_trace s @ [c]\<rparr>"

text \<open>\<open>subprocess.run(..., check=True)\<close> for each call in turn, up to the first that fails;
  the result is the error message the handlers of \<open>execute_task\<close> store.\<close>

fun run_all_checked :: "env \<Rightarrow> tmux_call list \<Rightarrow> daemon \<Rightarrow> string option \<times> daemon" where
  "run_all_checked e [] s = (None, s)"
| "run_all_checked e (c # cs) s =
     (case tmux e c of
        Returned rc \<Rightarrow>
          if rc = 0 then run_all_checked e cs (issue c s)
          else (Some (''Failed to start: '' @ called_process_error e c rc), issue c s)
      | Raised msg \<Rightarrow> (Some (''Unexpected error: '' @ msg), issue c s))"

definition is_task_running :: "env \<Rightarrow> task \<Rightarrow> daemon \<Rightarrow> bool \<times> daemon" where
  "is_task_running e t s =
     (case pid t of
        None \<Rightarrow> (False, s)
      | Some p \<Rightarrow>
          if p = 0 then (False, s)
          else (case tmux e (HasSession (session_name t)) of
                  Returned rc \<Rightarrow> (rc = 0, issue (HasSession (session_name t)) s)
                | Raised msg \<Rightarrow> (False, issue (HasSession (session_name t)) s)))"

subsection \<open>Restart recovery\<close>

text \<open>\<open>clock n\<close> is the reading of \<open>datetime.now().isoformat()\<close> while the file \<open>n\<close> is
  handled.\<close>

definition load_one :: "env \<Rightarrow> string \<Rightarrow> string \<Rightarrow> daemon \<Rightarrow> daemon" where
  "load_one e now text s =
     (case json_loads e text of
        None \<Rightarrow> s
      | Some t \<Rightarrow>
          (let s1 = set_task (task_id t) t s in
           if status t = ''queued'' \<or> status t = ''running'' then
             (if status t = ''running'' then
                (case is_task_running e t s1 of
                   (True, s2) \<Rightarrow> s2
                 | (False, s2) \<Rightarrow>
                     (let t1 = t\<lparr>status := ''failed'',
                                  error_message := Some ''Process died unexpectedly'',
                                  completed_at := Some now\<rparr>
                      in save_task e t1 (set_task (task_id t) t1 s2)))
              else s1\<lparr>task_queue := task_queue s1 @ [task_id t]\<rparr>)
           else s1))"

fun load_loop :: "env \<Rightarrow> (string \<Rightarrow> string) \<Rightarrow> (string \<times> string) list \<Rightarrow> daemon \<Rightarrow> daemon" where
  "load_loop e clock [] s = s"
| "load_loop e clock ((n, text) # fs) s = load_loop e clock fs (load_one e (clock n) text s)"

definition load_tasks :: "env \<Rightarrow> (string \<Rightarrow> string) \<Rightarrow> daemon \<Rightarrow> daemon" where
  "load_tasks e clock s = load_loop e clock (task_files s) s"

subsection \<open>Execution driver\<close>

definition squote :: string where
  "squote = [CHR 0x27]"

text \<open>Python's \<open>a or b\<close> on optional numbers: \<open>None\<close> and \<open>0\<close> are falsy.\<close>

definition or_else :: "nat option \<Rightarrow> nat option \<Rightarrow> nat option" where
  "or_else a b = (case a of None \<Rightarrow> b | Some n \<Rightarrow> if n = 0 then b else Some n)"

text \<open>\<open>str(x)\<close> of an optional string inside an f-string.\<close>

definition str_opt :: "string option \<Rightarrow> string" where
  "str_opt v = (case v of None \<Rightarrow> ''None'' | Some x \<Rightarrow> x)"

definition crush_flags :: "(string \<times> string) list \<Rightarrow> string" where
  "crush_flags ps = concat (map (\<lambda>(k, v). '' --'' @ k @ '' '' @ squote @ v @ squote) ps)"

definition build_task_command :: "env \<Rightarrow> task \<Rightarrow> tool_config \<Rightarrow> daemon \<Rightarrow> string \<times> daemon" where
  "build_task_command e t tc s =
     (let config_file = workspace e @ ''/configs/'' @ task_id t @ ''_params.json'';
          (param_str, s1) =
            (if parameters t \<noteq> [] then
               (if tool t = Some ''crush'' then (crush_flags (parameters t), s)
                else if tool t = Some ''blackbox'' \<or> tool t = Some ''qwen''
                        \<or> tool t = Some ''gemini'' then
                  ('' --config '' @ config_file,
                   s\<lparr>files := (files s)(config_file \<mapsto> params_dumps e (parameters t))\<rparr>)
                else ([], s))
             else ([], s));
          body = tc_command tc @ '' '' @ str_opt (command t) @ param_str
      in case or_else (timeout t) (tc_timeout tc) of
           None \<Rightarrow> (body, s1)
         | Some n \<Rightarrow> (if n = 0 then body else ''timeout '' @ str_nat n @ '' '' @ body, s1))"

text \<open>The clock readings of one dispatch, in the order \<open>execute_task\<close> takes them;
  \<open>t_error\<close> is the reading of whichever handler runs.\<close>

record exec_clock =
  t_started :: string
  t_echo :: string
  t_completed :: string
  t_failed :: string
  t_error :: string

definition log_setup_commands :: "env \<Rightarrow> task \<Rightarrow> string \<Rightarrow> string \<Rightarrow> string list" where
  "log_setup_commands e t tid echo_time =
     [''mkdir -p '' @ workspace e @ ''/logs'',
      ''exec > >(tee '' @ log_file t @ '')'',
      ''exec 2>&1'',
      ''echo '' @ squote @ ''['' @ echo_time @ ''] Starting task '' @ tid @ squote]"

definition completion_cmd :: "string \<Rightarrow> string \<Rightarrow> string" where
  "completion_cmd tid now = ''echo '' @ squote @ completed_marker tid now @ squote"

definition marker_cmd :: "string \<Rightarrow> string \<Rightarrow> string \<Rightarrow> string \<Rightarrow> string" where
  "marker_cmd task_command tid t_done t_fail =
     task_command @ '' && '' @ completion_cmd tid t_done @ '' || echo '' @ squote
       @ failed_prefix tid @ t_fail @ '']'' @ squote"

definition start_failed :: "env \<Rightarrow> string \<Rightarrow> task \<Rightarrow> string \<Rightarrow> string \<Rightarrow> daemon \<Rightarrow> bool \<times> daemon" where
  "start_failed e tid t msg now s =
     (let t1 = t\<lparr>status := ''failed'', error_message := Some msg, completed_at := Some now\<rparr>
      in (False, save_task e t1 (set_task tid t1 s)))"

text \<open>The text of the \<open>KeyError\<close> of a tool that is not in the tool table.\<close>

definition key_error :: "string option \<Rightarrow> string" where
  "key_error k = (case k of None \<Rightarrow> ''None'' | Some n \<Rightarrow> squote @ n @ squote)"

definition lookup_tool :: "env \<Rightarrow> task \<Rightarrow> tool_config option" where
  "lookup_tool e t = (case tool t of None \<Rightarrow> None | Some n \<Rightarrow> map_of (ai_tools e) n)"

definition work_dir :: "task \<Rightarrow> tool_config \<Rightarrow> string" where
  "work_dir t tc =
     (if falsy (working_dir t) then (case tc_working_dir tc of None \<Rightarrow> ''~'' | Some d \<Rightarrow> d)
      else str_opt (working_dir t))"

definition execute_task :: "env \<Rightarrow> exec_clock \<Rightarrow> string \<Rightarrow> daemon \<Rightarrow> bool \<times> daemon" where
  "execute_task e clk tid s =
     (case map_of (tasks s) tid of
        None \<Rightarrow> (False, s)
      | Some t0 \<Rightarrow>
          (let t = t0\<lparr>status := ''running'', started_at := Some (t_started clk)\<rparr>;
               s1 = save_task e t (set_task tid t s);
               sess = session_name t
           in case lookup_tool e t of
                None \<Rightarrow>
                  start_failed e tid t (''Unexpected error: '' @ key_error (tool t)) (t_error clk) s1
              | Some tc \<Rightarrow>
                  (case tmux e (KillSession sess) of
                     Raised msg \<Rightarrow>
                       start_failed e tid t (''Unexpected error: '' @ msg) (t_error clk)
                         (issue (KillSession sess) s1)
                   | Returned rc \<Rightarrow>
                       (case run_all_checked e
                               (NewSession sess (expanduser e (work_dir t tc))
                                  # map (SendKeys sess)
                                      (log_setup_commands e t tid (t_echo clk) @ env_setup tc))
                               (issue (KillSession sess) s1) of
                          (Some msg, s2) \<Rightarrow> start_failed e tid t msg (t_error clk) s2
                        | (None, s2) \<Rightarrow>
                            (case build_task_command e t tc s2 of
                               (task_command, s3) \<Rightarrow>
                                 (case run_all_checked e
                                         [SendKeys sess task_command,
                                          SendKeys sess
                                            (marker_cmd task_command tid (t_completed clk)
                                               (t_failed clk))]
                                         s3 of
                                    (Some msg, s4) \<Rightarrow> start_failed e tid t msg (t_error clk) s4
                                  | (None, s4) \<Rightarrow> (True, s4)))))))"

text \<open>The inputs sent to a session, in order.\<close>

fun sent_to :: "string \<Rightarrow> tmux_call list \<Rightarrow> string list" where
  "sent_to sess [] = []"
| "sent_to sess (SendKeys n text # cs) =
     (if n = sess then text # sent_to sess cs else sent_to sess cs)"
| "sent_to sess (c # cs) = sent_to sess cs"

subsection \<open>Completion inference\<close>

definition extract_progress_from_logs :: "env \<Rightarrow> string \<Rightarrow> task \<Rightarrow> task" where
  "extract_progress_from_logs e log_content t =
     (let progress_matches = findall match_progress log_content;
          complete_matches = findall match_complete log_content;
          file_matches = findall match_processing log_content
      in if progress_matches \<noteq> [] then
           t\<lparr>progress := int (int_of_digits (last progress_matches))\<rparr>
         else if complete_matches \<noteq> [] then
           t\<lparr>progress := int (int_of_digits (last complete_matches))\<rparr>
         else if file_matches \<noteq> [] then
           (case float_percent e (int_of_digits (fst (last file_matches)))
                                 (int_of_digits (snd (last file_matches))) of
              None \<Rightarrow> t
            | Some p \<Rightarrow> t\<lparr>progress := p\<rparr>)
         else t)"

definition error_line :: "string \<Rightarrow> bool" where
  "error_line line =
     list_ex (\<lambda>keyword. contains keyword (lower line)) [''error'', ''failed'', ''exception'']"

definition finalize_task_from_logs :: "env \<Rightarrow> string \<Rightarrow> string \<Rightarrow> daemon \<Rightarrow> daemon" where
  "finalize_task_from_logs e now tid s =
     (case map_of (tasks s) tid of
        None \<Rightarrow> s
      | Some t \<Rightarrow>
          (let t1 =
             (case files s (log_file t) of
                None \<Rightarrow>
                  t\<lparr>status := ''failed'', error_message := Some ''Log file not found'',
                    completed_at := Some now\<rparr>
              | Some log_content \<Rightarrow>
                  extract_progress_from_logs e log_content
                    (if contains (completed_prefix tid) log_content then
                       t\<lparr>status := ''completed'', progress := 100,
                         completed_at :=
                           Some (case search (match_completed tid) log_content of
                                   None \<Rightarrow> now | Some ts \<Rightarrow> ts)\<rparr>
                     else if contains (failed_prefix tid) log_content then
                       (let error_lines = filter error_line (split_on (CHR 0x0A) log_content);
                            t2 = t\<lparr>status := ''failed''\<rparr>;
                            t3 = (if error_lines \<noteq> []
                                  then t2\<lparr>error_message := Some (take 500 (last error_lines))\<rparr>
                                  else t2)
                        in t3\<lparr>completed_at := Some now\<rparr>)
                     else
                       t\<lparr>status := ''failed'',
                         error_message := Some ''Task ended without completion marker'',
                         completed_at := Some now\<rparr>))
           in save_task e t1 (set_task tid t1 s)))"

subsection \<open>Cancellation\<close>

definition kill_task :: "env \<Rightarrow> string \<Rightarrow> string \<Rightarrow> string \<Rightarrow> daemon \<Rightarrow> bool \<times> daemon" where
  "kill_task e now tid reason s =
     (case map_of (tasks s) tid of
        None \<Rightarrow> (False, s)
      | Some t \<Rightarrow>
          (case tmux e (KillSession (session_name t)) of
             Raised msg \<Rightarrow> (False, issue (KillSession (session_name t)) s)
           | Returned rc \<Rightarrow>
               (let t1 = t\<lparr>status := ''failed'',
                            error_message := Some (''Task killed: '' @ reason),
                            completed_at := Some now\<rparr>
                in (True, save_task e t1 (set_task tid t1 (issue (KillSession (session_name t)) s))))))"

subsection \<open>Lifecycle monitor\<close>

text \<open>The timeout of the check: the task's own, else the tool's, else 3600; \<open>None\<close> where
  the tool is not in the table (a \<open>KeyError\<close>, which the check logs).\<close>

definition effective_timeout :: "env \<Rightarrow> task \<Rightarrow> nat option" where
  "effective_timeout e t =
     (case or_else (timeout t) None of
        Some n \<Rightarrow> Some n
      | None \<Rightarrow>
          (case lookup_tool e t of
             None \<Rightarrow> None
           | Some tc \<Rightarrow> (case tc_timeout tc of None \<Rightarrow> Some 3600 | Some n \<Rightarrow> Some n)))"

text \<open>\<open>now\<close> is the clock in microseconds, \<open>now_iso\<close> the same reading in ISO format.
  The result is \<open>None\<close> for an id that is not in the map (a \<open>KeyError\<close> outside the
  function's own handler).\<close>

definition check_task_completion :: "env \<Rightarrow> int \<Rightarrow> string \<Rightarrow> string \<Rightarrow> daemon \<Rightarrow> daemon option" where
  "check_task_completion e now now_iso tid s =
     (case map_of (tasks s) tid of
        None \<Rightarrow> None
      | Some t \<Rightarrow>
          (let s1 = issue (HasSession (session_name t)) s in
           case tmux e (HasSession (session_name t)) of
             Raised msg \<Rightarrow> Some s1
           | Returned rc \<Rightarrow>
               if rc \<noteq> 0 then Some (finalize_task_from_logs e now_iso tid s1)
               else if falsy (started_at t) then Some s1
               else (case fromisoformat e (str_opt (started_at t)) of
                       None \<Rightarrow> Some s1
                     | Some started \<Rightarrow>
                         (case effective_timeout e t of
                            None \<Rightarrow> Some s1
                          | Some limit \<Rightarrow>
                              if now - started > int limit * 1000000
                              then Some (snd (kill_task e now_iso tid ''timeout'' s1))
                              else Some s1))))"

definition terminal :: "task \<Rightarrow> bool" where
  "terminal t = (status t = ''completed'' \<or> status t = ''failed'')"

definition forget_task :: "string \<Rightarrow> task \<Rightarrow> daemon \<Rightarrow> daemon" where
  "forget_task tid t s =
     s\<lparr>task_files := AList.delete tid (task_files s),
       files := (files s)(log_file t := None),
       tasks := AList.delete tid (tasks s)\<rparr>"

text \<open>The loop of \<open>cleanup_old_tasks\<close> over \<open>list(self.tasks.items())\<close>. A timestamp
  that does not parse raises inside the loop: the handler around the whole loop logs it
  and the sweep ends there.\<close>

fun cleanup_loop :: "env \<Rightarrow> int \<Rightarrow> (string \<times> task) list \<Rightarrow> daemon \<Rightarrow> daemon" where
  "cleanup_loop e cutoff [] s = s"
| "cleanup_loop e cutoff ((tid, t) # rest) s =
     (if terminal t \<and> \<not> falsy (completed_at t) then
        (case fromisoformat e (str_opt (completed_at t)) of
           None \<Rightarrow> s
         | Some completed \<Rightarrow>
             if completed < cutoff then cleanup_loop e cutoff rest (forget_task tid t s)
             else cleanup_loop e cutoff rest s)
      else cleanup_loop e cutoff rest s)"

definition cutoff_date :: "env \<Rightarrow> int \<Rightarrow> int" where
  "cutoff_date e now = now - int (log_retention_days e) * 86400000000"

definition cleanup_old_tasks :: "env \<Rightarrow> int \<Rightarrow> daemon \<Rightarrow> daemon" where
  "cleanup_old_tasks e now s = cleanup_loop e (cutoff_date e now) (tasks s) s"

text \<open>One pass of the monitor over \<open>list(self.tasks.items())\<close>; the flag is false when
  an exception left the loop, which also skips the sweep of that tick. The snapshot holds
  the task dicts by reference, so the status tested is the current one of the key.\<close>

fun monitor_pass :: "env \<Rightarrow> int \<Rightarrow> string \<Rightarrow> (string \<times> task) list \<Rightarrow> daemon \<Rightarrow> bool \<times> daemon" where
  "monitor_pass e now now_iso [] s = (True, s)"
| "monitor_pass e now now_iso ((tid, t0) # rest) s =
     (case map_of (tasks s) tid of
        None \<Rightarrow> monitor_pass e now now_iso rest s
      | Some t \<Rightarrow>
          if status t = ''running'' then
            (case check_task_completion e now now_iso tid s of
               None \<Rightarrow> (False, s)
             | Some s1 \<Rightarrow> monitor_pass e now now_iso rest s1)
          else monitor_pass e now now_iso rest s)"

definition monitor_tick :: "env \<Rightarrow> int \<Rightarrow> string \<Rightarrow> daemon \<Rightarrow> daemon" where
  "monitor_tick e now now_iso s =
     (case monitor_pass e now now_iso (tasks s) s of
        (True, s1) \<Rightarrow> cleanup_old_tasks e now s1
      | (False, s1) \<Rightarrow> s1)"

subsection \<open>Worker\<close>

text \<open>One turn of the worker loop with a task id in the queue.\<close>

definition worker_step :: "env \<Rightarrow> exec_clock \<Rightarrow> daemon \<Rightarrow> daemon" where
  "worker_step e clk s =
     (case task_queue s of
        [] \<Rightarrow> s
      | tid # q \<Rightarrow>
          (let s1 = s\<lparr>task_queue := q\<rparr> in
           case map_of (tasks s1) tid of
             None \<Rightarrow> s1
           | Some t \<Rightarrow> snd (execute_task e clk tid s1)))"

subsection \<open>The default configuration and an example workspace\<close>

text \<open>The tool table of \<open>load_config\<close>.\<close>

definition default_tools :: "(string \<times> tool_config) list" where
  "default_tools =
     [(''crush'', \<lparr>tc_command = ''crush'', env_setup = [''source ~/.bashrc''],
                   tc_working_dir = Some ''~/projects'', tc_timeout = Some 1800\<rparr>),
      (''blackbox'', \<lparr>tc_command = ''blackbox-cli'', env_setup = [''blackbox-cli auth''],
                      tc_working_dir = Some ''~/projects'', tc_timeout = Some 900\<rparr>),
      (''qwen'', \<lparr>tc_command = ''qwen-cli'', env_setup = [''source ~/qwen-env/bin/activate''],
                  tc_working_dir = Some ''~/projects'', tc_timeout = Some 2400\<rparr>),
      (''gemini'', \<lparr>tc_command = ''gemini-cli'',
                    env_setup = [''export GEMINI_API_KEY=$GEMINI_KEY''],
                    tc_working_dir = Some ''~/projects'', tc_timeout = Some 1200\<rparr>)]"

text \<open>
  An environment for the examples: the default configuration in the workspace
  \<open>/home/ai/ai-workspace\<close>, with the answers of tmux and the decoding of the task files
  given. The JSON text is abbreviated to the id and status of the task;
  \<open>fromisoformat\<close> and \<open>float_percent\<close> are tabulated on the values the examples use
  (microseconds since 1970), and \<open>fromisoformat\<close> raises on the other strings there.
\<close>

definition example_times :: "(string \<times> int) list" where
  "example_times =
     [(''2024-01-01T12:00:00'', 1704110400000000),
      (''2024-01-01T12:00:05'', 1704110405000000),
      (''2024-01-01T12:10:00'', 1704111000000000),
      (''2024-01-02T23:59:59'', 1704239999000000),
      (''2024-01-03T00:00:01'', 1704240001000000)]"

definition example_env :: "(tmux_call \<Rightarrow> run_result) \<Rightarrow> (string \<times> task) list \<Rightarrow> env" where
  "example_env answers decoded =
     \<lparr>workspace = ''/home/ai/ai-workspace'',
      ai_tools = default_tools,
      log_retention_days = 7,
      json_dumps = (\<lambda>t. ''{id: '' @ task_id t @ '', status: '' @ status t @ ''}''),
      json_loads = map_of decoded,
      params_dumps = (\<lambda>ps. concat (map (\<lambda>(k, v). k @ '': '' @ v @ ''; '') ps)),
      fromisoformat = map_of example_times,
      float_percent = (\<lambda>c t. map_of [((1, 2), 50), ((1, 1), 100)] (c, t)),
      expanduser = (\<lambda>p. if prefix ''~'' p then ''/home/ai'' @ drop 1 p else p),
      tmux = answers,
      called_process_error = (\<lambda>c rc. ''returned non-zero exit status'')\<rparr>"

definition all_succeed :: "tmux_call \<Rightarrow> run_result" where
  "all_succeed c = Returned 0"

definition no_session :: "tmux_call \<Rightarrow> run_result" where
  "no_session c = (case c of HasSession n \<Rightarrow> Returned 1 | _ \<Rightarrow> Returned 0)"

definition empty_daemon :: daemon where
  "empty_daemon = \<lparr>tasks = [], task_queue = [], task_files = [], files = Map.empty,
                    tmux_trace = []\<rparr>"

definition example_request :: task_request where
  "example_request =
     \<lparr>req_tool = Some ''crush'', req_command = Some ''run'', req_parameters = None,
      req_working_dir = None, req_priority = None, req_timeout = None\<rparr>"

definition example_id :: string where
  "example_id = ''task-20240101-120000-abcdef12''"

definition example_task :: task where
  "example_task =
     new_task (example_env all_succeed []) example_request example_id ''2024-01-01T12:00:00''"

definition example_clock :: exec_clock where
  "example_clock =
     \<lparr>t_started = ''2024-01-01T12:00:05'', t_echo = ''2024-01-01 12:00:05'',
      t_completed = ''2024-01-01T12:00:05'', t_failed = ''2024-01-01T12:00:05'',
      t_error = ''2024-01-01T12:00:05''\<rparr>"

definition live_env :: env where
  "live_env = example_env all_succeed []"

definition ended_env :: env where
  "ended_env = example_env no_session []"

text \<open>A submission, its dispatch by a worker, and the end of its session with a log
  that holds a progress line and the success sentinel.\<close>

definition queued_state :: daemon where
  "queued_state =
     snd (create_task live_env example_request ''20240101-120000'' ''abcdef12''
            ''2024-01-01T12:00:00'' empty_daemon)"

definition running_state :: daemon where
  "running_state = worker_step live_env example_clock queued_state"

definition with_log :: "string \<Rightarrow> daemon \<Rightarrow> daemon" where
  "with_log text s = s\<lparr>files := (files s)(log_file example_task \<mapsto> text)\<rparr>"

definition progress_log :: string where
  "progress_log = ''Progress: 40%'' @ [CHR 0x0A]"

definition success_log :: string where
  "success_log =
     progress_log @ completed_marker example_id ''2024-01-01T12:00:05'' @ [CHR 0x0A]"

text \<open>A log that was cut off inside the sentinel line: the opening is there, the
  timestamp and the closing bracket are not.\<close>

definition truncated_log :: string where
  "truncated_log = progress_log @ completed_prefix example_id"

definition completed_state :: daemon where
  "completed_state =
     monitor_tick ended_env 1704111000000000 ''2024-01-01T12:10:00''
       (with_log success_log running_state)"

text \<open>A kill request that arrives while the task is still queued.\<close>

definition killed_queued_state :: daemon where
  "killed_queued_state =
     snd (kill_task live_env ''2024-01-01T12:00:02'' example_id ''manual'' queued_state)"

text \<open>The daemon after a restart: nothing in memory, the files as they were; the task
  files decode to the records that were saved.\<close>

definition restarted :: "daemon \<Rightarrow> daemon" where
  "restarted s = empty_daemon\<lparr>task_files := task_files s, files := files s\<rparr>"

definition restart_env :: "daemon \<Rightarrow> env" where
  "restart_env s =
     example_env all_succeed (map (\<lambda>(k, t). (json_dumps live_env t, t)) (tasks s))"






subsection \<open>Notions the statements use\<close>

definition statuses :: "daemon \<Rightarrow> (string \<times> string) list" where
  "statuses s = map (\<lambda>(k, t). (k, status t)) (tasks s)"

text \<open>The outcome fields of the tasks in memory.\<close>

definition outcomes :: "daemon \<Rightarrow> (string \<times> int \<times> string option \<times> string option) list" where
  "outcomes s =
     map (\<lambda>(k, t). (status t, progress t, error_message t, completed_at t)) (tasks s)"

definition known_tool :: "env \<Rightarrow> string option \<Rightarrow> bool" where
  "known_tool e v = (case v of None \<Rightarrow> False | Some n \<Rightarrow> n \<in> fst ` set (ai_tools e))"

text \<open>A terminal task with a completion time that \<open>fromisoformat\<close> rejects, and one that
  the sweep finds older than the cutoff.\<close>

definition unparsed :: "env \<Rightarrow> task \<Rightarrow> bool" where
  "unparsed e t =
     (terminal t \<and> \<not> falsy (completed_at t) \<and>
      fromisoformat e (str_opt (completed_at t)) = None)"

definition old_enough :: "env \<Rightarrow> int \<Rightarrow> task \<Rightarrow> bool" where
  "old_enough e cutoff t =
     (terminal t \<and> \<not> falsy (completed_at t) \<and>
      (case fromisoformat e (str_opt (completed_at t)) of
         None \<Rightarrow> False | Some c \<Rightarrow> c < cutoff))"

text \<open>Every state of the disk during \<open>save_task\<close> shows the record file as it was or
  with the new record in full.\<close>

definition never_partial :: "env \<Rightarrow> task \<Rightarrow> daemon \<Rightarrow> bool" where
  "never_partial e t s =
     list_all (\<lambda>s1. map_of (task_files s1) (task_id t) = map_of (task_files s) (task_id t)
                  \<or> map_of (task_files s1) (task_id t) = Some (json_dumps e t))
       (save_task_states e t s)"

text \<open>Task ids as \<open>create_task\<close> builds them: letters, digits and hyphens.\<close>

definition plain_id :: "string \<Rightarrow> bool" where
  "plain_id tid =
     list_all (\<lambda>c. c \<in> set ''abcdefghijklmnopqrstuvwxyz0123456789-'') tid"

text \<open>The log holds a whole success sentinel of the task with this timestamp: the
  opening, a non-empty timestamp without a closing bracket in it, and the bracket.\<close>

definition whole_sentinel :: "string \<Rightarrow> string \<Rightarrow> string \<Rightarrow> bool" where
  "whole_sentinel tid log_content stamp =
     (stamp \<noteq> [] \<and> CHR '']'' \<notin> set stamp
      \<and> contains (completed_marker tid stamp) log_content)"

text \<open>The status and the completion time of the tasks in memory.\<close>

definition completions :: "daemon \<Rightarrow> (string \<times> string option) list" where
  "completions s = map (\<lambda>(k, t). (status t, completed_at t)) (tasks s)"

section \<open>Properties of the operations\<close>

subsection \<open>The loop of the retention sweep\<close>

lemma forget_task_fields:
  "tasks (forget_task k t s) = AList.delete k (tasks s)"
  "task_files (forget_task k t s) = AList.delete k (task_files s)"
  "files (forget_task k t s) = (files s)(log_file t := None)"
  "task_queue (forget_task k t s) = task_queue s"
  by (simp_all add: forget_task_def)

lemma cleanup_loop_step:
  "cleanup_loop e c ((k, t) # xs) s =
     (if unparsed e t then s
      else if old_enough e c t then cleanup_loop e c xs (forget_task k t s)
      else cleanup_loop e c xs s)"
  by (simp add: unparsed_def old_enough_def split: option.splits)

lemma cleanup_loop_only_deletes:
  "(map_of (tasks (cleanup_loop e c xs s)) k = None
      \<or> map_of (tasks (cleanup_loop e c xs s)) k = map_of (tasks s) k)
   \<and> (map_of (task_files (cleanup_loop e c xs s)) k = None
      \<or> map_of (task_files (cleanup_loop e c xs s)) k = map_of (task_files s) k)
   \<and> (files (cleanup_loop e c xs s) p = None
      \<or> files (cleanup_loop e c xs s) p = files s p)"
proof (induction xs arbitrary: s)
  case Nil
  show ?case by simp
next
  case (Cons x xs)
  obtain k' t' where x: "x = (k', t')" by (cases x)
  have step: "map_of (tasks (forget_task k' t' s)) k = None
                \<or> map_of (tasks (forget_task k' t' s)) k = map_of (tasks s) k"
             "map_of (task_files (forget_task k' t' s)) k = None
                \<or> map_of (task_files (forget_task k' t' s)) k = map_of (task_files s) k"
             "files (forget_task k' t' s) p = None
                \<or> files (forget_task k' t' s) p = files s p"
    by (simp_all add: forget_task_fields delete_conv')
  show ?case
  proof (cases "unparsed e t'")
    case True
    then show ?thesis unfolding x cleanup_loop_step by simp
  next
    case False
    note parsed = this
    show ?thesis
    proof (cases "old_enough e c t'")
      case True
      have run: "cleanup_loop e c (x # xs) s = cleanup_loop e c xs (forget_task k' t' s)"
        unfolding x cleanup_loop_step using parsed True by simp
      from Cons.IH [of "forget_task k' t' s"] step show ?thesis
        unfolding run by auto
    next
      case False
      have run: "cleanup_loop e c (x # xs) s = cleanup_loop e c xs s"
        unfolding x cleanup_loop_step using parsed False by simp
      from Cons.IH [of s] show ?thesis
        unfolding run by simp
    qed
  qed
qed




subsection \<open>Searching the log, finalization and dispatch\<close>

lemma contains_iff: "contains p s \<longleftrightarrow> (\<exists>a b. s = a @ p @ b)"
proof (induction s)
  case Nil
  show ?case by auto
next
  case (Cons c cs)
  show ?case
  proof
    assume "contains p (c # cs)"
    then consider "prefix p (c # cs)" | "contains p cs" by auto
    then show "\<exists>a b. c # cs = a @ p @ b"
    proof cases
      case 1
      then obtain b where "c # cs = p @ b" by (auto simp: prefix_def)
      then have "c # cs = [] @ p @ b" by simp
      then show ?thesis by blast
    next
      case 2
      with Cons.IH obtain a b where "cs = a @ p @ b" by blast
      then have "c # cs = (c # a) @ p @ b" by simp
      then show ?thesis by blast
    qed
  next
    assume "\<exists>a b. c # cs = a @ p @ b"
    then obtain a b where ab: "c # cs = a @ p @ b" by blast
    show "contains p (c # cs)"
    proof (cases a)
      case Nil
      with ab have "prefix p (c # cs)" by (simp add: prefix_def)
      then show ?thesis by simp
    next
      case (Cons a0 as)
      with ab have "cs = as @ p @ b" by simp
      with Cons.IH have "contains p cs" by blast
      then show ?thesis by simp
    qed
  qed
qed

lemma search_SomeD:
  "search m s = Some g \<Longrightarrow> \<exists>a r rest. s = a @ r \<and> m r = Some (g, rest)"
proof (induction s)
  case Nil
  then show ?case by simp
next
  case (Cons c cs)
  show ?case
  proof (cases "m (c # cs)")
    case None
    with Cons.prems have "search m cs = Some g" by simp
    with Cons.IH obtain a r rest where "cs = a @ r" "m r = Some (g, rest)" by blast
    then have "c # cs = (c # a) @ r \<and> m r = Some (g, rest)" by simp
    then show ?thesis by blast
  next
    case (Some y)
    obtain g' rest where y: "y = (g', rest)" by (cases y)
    with Some Cons.prems have "g' = g" by simp
    with Some y have "c # cs = [] @ (c # cs) \<and> m (c # cs) = Some (g, rest)" by simp
    then show ?thesis by blast
  qed
qed

lemma search_finds:
  "m r = Some y \<Longrightarrow> r \<noteq> [] \<Longrightarrow> \<exists>g. search m (a @ r) = Some g"
proof (induction a)
  case Nil
  then show ?case by (cases r; cases y) auto
next
  case (Cons c a)
  then show ?case by (cases "m (c # a @ r)") auto
qed

lemma match_completedD:
  assumes "match_completed tid r = Some (ts, rest)"
  shows "r = completed_marker tid ts @ rest \<and> ts \<noteq> [] \<and> CHR '']'' \<notin> set ts"
proof -
  let ?P = "completed_prefix tid"
  let ?r0 = "drop (length ?P) r"
  from assms have pre: "prefix ?P r"
    by (simp add: match_completed_def split: if_splits)
  then have r: "r = ?P @ ?r0" by (auto simp: prefix_def)
  from assms pre have ts: "ts = takeWhile not_bracket ?r0" and ne: "ts \<noteq> []"
    and dne: "dropWhile not_bracket ?r0 \<noteq> []"
    and rest: "rest = drop 1 (dropWhile not_bracket ?r0)"
    by (auto simp: match_completed_def Let_def split: if_splits)
  from dne have "\<not> not_bracket (hd (dropWhile not_bracket ?r0))"
    by (rule hd_dropWhile)
  then have "hd (dropWhile not_bracket ?r0) = CHR '']''" by (simp add: not_bracket_def)
  with dne rest have dw: "dropWhile not_bracket ?r0 = CHR '']'' # rest"
    by (cases "dropWhile not_bracket ?r0") auto
  have "?r0 = takeWhile not_bracket ?r0 @ dropWhile not_bracket ?r0" by simp
  with ts dw have "?r0 = ts @ CHR '']'' # rest" by simp
  with r have "r = ?P @ ts @ CHR '']'' # rest" by simp
  moreover have "CHR '']'' \<notin> set ts"
  proof
    assume "CHR '']'' \<in> set ts"
    with ts have "not_bracket (CHR '']'')" by (auto dest: set_takeWhileD)
    then show False by (simp add: not_bracket_def)
  qed
  ultimately show ?thesis using ne by (simp add: completed_marker_def)
qed

lemma match_completedI:
  assumes "ts \<noteq> []" and "CHR '']'' \<notin> set ts"
  shows "match_completed tid (completed_marker tid ts @ rest) = Some (ts, rest)"
proof -
  let ?P = "completed_prefix tid"
  have all: "\<forall>x\<in>set ts. not_bracket x" using assms(2) by (auto simp: not_bracket_def)
  have tw: "takeWhile not_bracket (ts @ CHR '']'' # rest) = ts"
    using all by (simp add: takeWhile_append2 not_bracket_def)
  have dw: "dropWhile not_bracket (ts @ CHR '']'' # rest) = CHR '']'' # rest"
    using all by (simp add: dropWhile_append2 not_bracket_def)
  have p: "prefix ?P (completed_marker tid ts @ rest)"
    by (simp add: completed_marker_def)
  have d: "drop (length ?P) (completed_marker tid ts @ rest) = ts @ CHR '']'' # rest"
    by (simp add: completed_marker_def)
  show ?thesis
    by (simp only: match_completed_def Let_def p d tw dw if_True) (simp add: assms(1))
qed

lemma search_completed_marker:
  assumes "search (match_completed tid) log_content = Some ts"
  shows "contains (completed_marker tid ts) log_content \<and> ts \<noteq> [] \<and> CHR '']'' \<notin> set ts"
proof -
  from search_SomeD [OF assms] obtain a r rest
    where "log_content = a @ r" "match_completed tid r = Some (ts, rest)" by blast
  with match_completedD [of tid r ts rest]
  have "log_content = a @ completed_marker tid ts @ rest" "ts \<noteq> []" "CHR '']'' \<notin> set ts"
    by simp_all
  then show ?thesis by (auto simp: contains_iff)
qed

lemma search_completed_exists:
  assumes "contains (completed_marker tid ts) log_content" "ts \<noteq> []" "CHR '']'' \<notin> set ts"
  shows "\<exists>ts'. search (match_completed tid) log_content = Some ts'"
proof -
  from assms(1) obtain a b where "log_content = a @ completed_marker tid ts @ b"
    by (auto simp: contains_iff)
  moreover have "match_completed tid (completed_marker tid ts @ b) = Some (ts, b)"
    using assms(2,3) by (rule match_completedI)
  moreover have "completed_marker tid ts @ b \<noteq> []"
    by (simp add: completed_marker_def completed_prefix_def)
  ultimately show ?thesis
    using search_finds [of "match_completed tid" "completed_marker tid ts @ b" "(ts, b)" a]
    by simp
qed

lemma contains_prefix_of_marker:
  "contains (completed_marker tid ts) log_content \<Longrightarrow> contains (completed_prefix tid) log_content"
proof -
  assume "contains (completed_marker tid ts) log_content"
  then obtain a b where "log_content = a @ completed_marker tid ts @ b" by (auto simp: contains_iff)
  then have "log_content = a @ completed_prefix tid @ (ts @ '']'' @ b)"
    by (simp add: completed_marker_def)
  then show ?thesis unfolding contains_iff by blast
qed

lemma extract_progress_fields:
  "status (extract_progress_from_logs e l t) = status t"
  "completed_at (extract_progress_from_logs e l t) = completed_at t"
  "error_message (extract_progress_from_logs e l t) = error_message t"
  by (simp_all add: extract_progress_from_logs_def Let_def split: option.splits)

lemma save_task_fields:
  "tasks (save_task e t s) = tasks s" "task_queue (save_task e t s) = task_queue s"
  "files (save_task e t s) = files s" "tmux_trace (save_task e t s) = tmux_trace s"
  "task_files (save_task e t s) = AList.update (task_id t) (json_dumps e t) (task_files s)"
  by (simp_all add: save_task_def save_task_states_def)

lemma set_task_fields:
  "tasks (set_task k t s) = AList.update k t (tasks s)" "task_queue (set_task k t s) = task_queue s"
  "files (set_task k t s) = files s" "tmux_trace (set_task k t s) = tmux_trace s"
  "task_files (set_task k t s) = task_files s"
  by (simp_all add: set_task_def)

lemma issue_fields:
  "tasks (issue c s) = tasks s" "task_queue (issue c s) = task_queue s"
  "files (issue c s) = files s" "tmux_trace (issue c s) = tmux_trace s @ [c]"
  "task_files (issue c s) = task_files s"
  by (simp_all add: issue_def)

lemma finalize_completed:
  assumes "map_of (tasks s) tid = Some t" and "files s (log_file t) = Some log_content"
      and "contains (completed_prefix tid) log_content"
  shows "map_of (tasks (finalize_task_from_logs e now tid s)) tid =
           Some (extract_progress_from_logs e log_content
                   (t\<lparr>status := ''completed'', progress := 100,
                      completed_at :=
                        Some (case search (match_completed tid) log_content of
                                None \<Rightarrow> now | Some ts \<Rightarrow> ts)\<rparr>))"
  using assms
  by (simp add: finalize_task_from_logs_def Let_def save_task_fields set_task_fields update_conv')

lemma run_all_checked_trace:
  "run_all_checked e cs s = (None, s1) \<Longrightarrow> tmux_trace s1 = tmux_trace s @ cs"
proof (induction cs arbitrary: s)
  case Nil
  then show ?case by simp
next
  case (Cons c cs)
  show ?case
  proof (cases "tmux e c")
    case (Returned rc)
    with Cons.prems have rc: "rc = 0" and run: "run_all_checked e cs (issue c s) = (None, s1)"
      by (auto split: if_splits)
    from Cons.IH [OF run] show ?thesis by (simp add: issue_fields)
  next
    case (Raised msg)
    with Cons.prems show ?thesis by simp
  qed
qed

lemma start_failed_fst: "fst (start_failed e tid t msg now s) = False"
  by (simp add: start_failed_def Let_def)

lemma execute_task_sends:
  assumes "fst (execute_task e clk tid s)"
  shows "\<exists>t0 task_command before.
           map_of (tasks s) tid = Some t0 \<and>
           tmux_trace (snd (execute_task e clk tid s)) =
             before @ [SendKeys (session_name t0) task_command,
                       SendKeys (session_name t0)
                         (marker_cmd task_command tid (t_completed clk) (t_failed clk))]"
proof (cases "map_of (tasks s) tid")
  case None
  with assms show ?thesis by (simp add: execute_task_def)
next
  case (Some t0)
  let ?t = "t0\<lparr>status := ''running'', started_at := Some (t_started clk)\<rparr>"
  let ?s1 = "save_task e ?t (set_task tid ?t s)"
  let ?sess = "session_name t0"
  show ?thesis
  proof (cases "lookup_tool e ?t")
    case None
    with Some assms show ?thesis by (simp add: execute_task_def Let_def start_failed_fst)
  next
    case tc: (Some tc)
    show ?thesis
    proof (cases "tmux e (KillSession ?sess)")
      case (Raised msg)
      with Some tc assms show ?thesis by (simp add: execute_task_def Let_def start_failed_fst)
    next
      case (Returned rc)
      let ?first = "NewSession ?sess (expanduser e (work_dir ?t tc))
                      # map (SendKeys ?sess)
                          (log_setup_commands e ?t tid (t_echo clk) @ env_setup tc)"
      obtain r2 s2 where r2: "run_all_checked e ?first (issue (KillSession ?sess) ?s1) = (r2, s2)"
        by (cases "run_all_checked e ?first (issue (KillSession ?sess) ?s1)")
      show ?thesis
      proof (cases r2)
        case (Some msg)
        with \<open>map_of (tasks s) tid = Some t0\<close> tc Returned r2 assms show ?thesis
          by (simp add: execute_task_def Let_def start_failed_fst)
      next
        case None
        obtain cmd s3 where b: "build_task_command e ?t tc s2 = (cmd, s3)"
          by (cases "build_task_command e ?t tc s2")
        let ?second = "[SendKeys ?sess cmd,
                        SendKeys ?sess (marker_cmd cmd tid (t_completed clk) (t_failed clk))]"
        obtain r4 s4 where r4: "run_all_checked e ?second s3 = (r4, s4)"
          by (cases "run_all_checked e ?second s3")
        show ?thesis
        proof (cases r4)
          case (Some msg)
          with \<open>map_of (tasks s) tid = Some t0\<close> tc Returned r2 None b r4 assms show ?thesis
            by (simp add: execute_task_def Let_def start_failed_fst)
        next
          case n4: None
          from r4 n4 have "tmux_trace s4 = tmux_trace s3 @ ?second"
            by (simp add: run_all_checked_trace)
          moreover have "snd (execute_task e clk tid s) = s4"
            using \<open>map_of (tasks s) tid = Some t0\<close> tc Returned r2 None b r4 n4
            by (simp add: execute_task_def Let_def)
          ultimately show ?thesis using \<open>map_of (tasks s) tid = Some t0\<close> by blast
        qed
      qed
    qed
  qed
qed

subsection \<open>Monitor and cancellation\<close>

text \<open>The monitor leaves a terminal task as it is (the sweep may purge it); a kill request
  rewrites whatever task it is given; the check of a live task within its timeout only
  asks tmux.\<close>

lemma finalize_other:
  "k \<noteq> tid \<Longrightarrow>
   map_of (tasks (finalize_task_from_logs e now tid s)) k = map_of (tasks s) k"
  by (simp add: finalize_task_from_logs_def Let_def save_task_fields set_task_fields
      update_conv' split: option.splits)

lemma kill_task_other:
  "k \<noteq> tid \<Longrightarrow>
   map_of (tasks (snd (kill_task e now tid reason s))) k = map_of (tasks s) k"
  by (simp add: kill_task_def Let_def save_task_fields set_task_fields issue_fields
      update_conv' split: option.splits run_result.splits)

lemma kill_task_known:
  assumes "map_of (tasks s) tid = Some t"
      and "tmux e (KillSession (session_name t)) = Returned rc"
  shows "fst (kill_task e now tid reason s)
       \<and> map_of (tasks (snd (kill_task e now tid reason s))) tid =
           Some (t\<lparr>status := ''failed'', error_message := Some (''Task killed: '' @ reason),
                   completed_at := Some now\<rparr>)"
  using assms
  by (simp add: kill_task_def Let_def save_task_fields set_task_fields issue_fields
      update_conv')

lemma check_task_completion_other:
  assumes "check_task_completion e now now_iso tid s = Some s1" and "k \<noteq> tid"
  shows "map_of (tasks s1) k = map_of (tasks s) k"
proof (cases "map_of (tasks s) tid")
  case None
  with assms(1) show ?thesis by (simp add: check_task_completion_def)
next
  case (Some t)
  let ?s = "issue (HasSession (session_name t)) s"
  have same: "map_of (tasks ?s) k = map_of (tasks s) k"
    by (simp add: issue_fields)
  have "s1 = ?s \<or> s1 = finalize_task_from_logs e now_iso tid ?s
          \<or> s1 = snd (kill_task e now_iso tid ''timeout'' ?s)"
    using assms(1) Some
    by (auto simp: check_task_completion_def Let_def
        split: run_result.splits option.splits if_splits)
  with same finalize_other [OF assms(2), of e now_iso ?s]
       kill_task_other [OF assms(2), of e now_iso "''timeout''" ?s]
  show ?thesis by auto
qed

lemma check_task_completion_idle:
  assumes "map_of (tasks s) tid = Some t"
      and "tmux e (HasSession (session_name t)) = Returned 0"
      and "started_at t = Some started" and "started \<noteq> []"
      and "fromisoformat e started = Some since"
      and "effective_timeout e t = Some limit"
      and "\<not> now - since > int limit * 1000000"
  shows "check_task_completion e now now_iso tid s = Some (issue (HasSession (session_name t)) s)"
  using assms
  by (simp add: check_task_completion_def Let_def falsy_def str_opt_def)

lemma monitor_pass_keeps_terminal:
  assumes "map_of (tasks s) k = Some t" and "terminal t"
  shows "map_of (tasks (snd (monitor_pass e now now_iso xs s))) k = Some t"
  using assms(1)
proof (induction xs arbitrary: s)
  case Nil
  then show ?case by simp
next
  case (Cons x xs)
  obtain tid t0 where x: "x = (tid, t0)" by (cases x)
  show ?case
  proof (cases "map_of (tasks s) tid")
    case None
    with Cons.IH [OF Cons.prems] show ?thesis unfolding x by simp
  next
    case (Some t1)
    show ?thesis
    proof (cases "status t1 = ''running''")
      case False
      with Some Cons.IH [OF Cons.prems] show ?thesis unfolding x by simp
    next
      case True
      with assms(2) have "t1 \<noteq> t" by (auto simp: terminal_def)
      with Some Cons.prems have other: "k \<noteq> tid" by auto
      show ?thesis
      proof (cases "check_task_completion e now now_iso tid s")
        case None
        with Some True Cons.prems show ?thesis unfolding x by simp
      next
        case s1: (Some s1)
        from check_task_completion_other [OF s1 other] Cons.prems
        have "map_of (tasks s1) k = Some t" by simp
        from Cons.IH [OF this] Some True s1 show ?thesis unfolding x by simp
      qed
    qed
  qed
qed

lemma monitor_tick_keeps_terminal:
  assumes "map_of (tasks s) k = Some t" and "terminal t"
  shows "map_of (tasks (monitor_tick e now now_iso s)) k = None
       \<or> map_of (tasks (monitor_tick e now now_iso s)) k = Some t"
proof -
  obtain ok s1 where p: "monitor_pass e now now_iso (tasks s) s = (ok, s1)"
    by (cases "monitor_pass e now now_iso (tasks s) s")
  from monitor_pass_keeps_terminal [OF assms, of e now now_iso "tasks s"] p
  have kept: "map_of (tasks s1) k = Some t" by simp
  show ?thesis
  proof (cases ok)
    case True
    with p have "monitor_tick e now now_iso s = cleanup_old_tasks e now s1"
      by (simp add: monitor_tick_def)
    with kept cleanup_loop_only_deletes [of e "cutoff_date e now" "tasks s1" s1 k "log_file t"]
    show ?thesis by (auto simp: cleanup_old_tasks_def)
  next
    case False
    with p kept show ?thesis by (simp add: monitor_tick_def)
  qed
qed

section \<open>The claims\<close>

subsection \<open>Terminal states\<close>

text \<open>
  C1 says that no daemon operation changes the status of a task that is completed or
  failed: not a monitor poll, not \<open>kill_task\<close>, not a worker that dequeues its id.
  The monitor does leave such a task alone (it only looks at running tasks), but
  \<open>kill_task\<close> and \<open>execute_task\<close> write the status without reading it. In the example
  the task that the monitor finalized as completed stays completed under a later tick;
  a kill request then makes it failed; and a task killed while it was queued, whose id is
  still in the queue, is set back to running by the worker that dequeues it.
\<close>

theorem terminal_status_overwritten:
  "statuses completed_state = [(example_id, ''completed'')]
   \<and> statuses (monitor_tick ended_env 1704112800000000 ''2024-01-01T12:40:00'' completed_state)
       = [(example_id, ''completed'')]
   \<and> statuses (snd (kill_task live_env ''2024-01-01T12:20:00'' example_id ''manual''
                      completed_state))
       = [(example_id, ''failed'')]
   \<and> statuses killed_queued_state = [(example_id, ''failed'')]
   \<and> task_queue killed_queued_state = [example_id]
   \<and> statuses (worker_step live_env example_clock killed_queued_state)
       = [(example_id, ''running'')]"
  by code_simp

text \<open>
  C2 says that \<open>kill_task\<close> on a terminal task is a no-op that returns true, and that a
  second kill leaves status, error message and completion time as they are. The code
  returns true but rewrites all three: the completed task of the example becomes failed
  with the message of the kill and the time of the request, and a second kill moves the
  completion time again.
\<close>

theorem kill_task_rewrites_terminal_task:
  "outcomes completed_state = [(''completed'', 40, None, Some ''2024-01-01T12:00:05'')]
   \<and> fst (kill_task live_env ''2024-01-01T12:20:00'' example_id ''manual'' completed_state)
   \<and> outcomes (snd (kill_task live_env ''2024-01-01T12:20:00'' example_id ''manual''
                      completed_state))
       = [(''failed'', 40, Some ''Task killed: manual'', Some ''2024-01-01T12:20:00'')]
   \<and> fst (kill_task live_env ''2024-01-01T12:30:00'' example_id ''manual''
            (snd (kill_task live_env ''2024-01-01T12:20:00'' example_id ''manual''
                    completed_state)))
   \<and> outcomes (snd (kill_task live_env ''2024-01-01T12:30:00'' example_id ''manual''
                      (snd (kill_task live_env ''2024-01-01T12:20:00'' example_id ''manual''
                              completed_state))))
       = [(''failed'', 40, Some ''Task killed: manual'', Some ''2024-01-01T12:30:00'')]"
  by code_simp

subsection \<open>Completion inference\<close>

text \<open>
  C3 says that a log with the success sentinel of the task finalizes it as completed
  with progress 100, the sentinel being checked first. The status is as claimed, but
  \<open>finalize_task_from_logs\<close> runs the progress extraction after it has set the progress
  to 100, so a progress line in the log overwrites it: the log of the example holds
  \<open>Progress: 40%\<close> before the sentinel, and the completed task ends with progress 40.
\<close>

theorem finalize_progress_overwritten:
  "contains (completed_prefix example_id) success_log
   \<and> outcomes (finalize_task_from_logs ended_env ''2024-01-01T12:10:00'' example_id
                 (with_log success_log running_state))
       = [(''completed'', 40, None, Some ''2024-01-01T12:00:05'')]"
  by code_simp

text \<open>
  C4 says that each monitor tick re-runs the progress extraction for a running task
  whose session is alive and under its timeout, clamped to at most 99. The check of
  the daemon does neither: with the session alive, ten minutes into a timeout of thirty,
  and \<open>Progress: 40%\<close> in the log, the task is left as it was, with progress 0, although
  the extraction reads 40 from that log; and the extraction itself does not clamp, it
  reads 100 from \<open>Progress: 100%\<close>.
\<close>

theorem running_progress_not_refreshed:
  "statuses running_state = [(example_id, ''running'')]
   \<and> tmux live_env (HasSession (''ai-'' @ example_id)) = Returned 0
   \<and> map_option outcomes
        (check_task_completion live_env 1704111000000000 ''2024-01-01T12:10:00'' example_id
           (with_log progress_log running_state))
       = Some [(''running'', 0, None, None)]
   \<and> progress (extract_progress_from_logs live_env progress_log
                  (example_task\<lparr>status := ''running''\<rparr>)) = 40
   \<and> progress (extract_progress_from_logs live_env ''Progress: 100%''
                  (example_task\<lparr>status := ''running''\<rparr>)) = 100"
  by code_simp

subsection \<open>Restart recovery\<close>

text \<open>
  C5 says that recovery keeps a persisted running task whose session is alive, fails
  one whose session is gone, and enqueues a queued one once. \<open>is_task_running\<close> answers
  false for a record without a pid before it asks tmux, and no operation of the daemon
  stores a pid. The running task of the example, saved by \<open>execute_task\<close>, has none: after
  a restart with its session alive it is failed with \<open>Process died unexpectedly\<close>, and
  tmux was never asked.
\<close>

theorem recovery_fails_live_task:
  "statuses running_state = [(example_id, ''running'')]
   \<and> map (\<lambda>(k, t). pid t) (tasks running_state) = [None]
   \<and> tmux (restart_env running_state) (HasSession (''ai-'' @ example_id)) = Returned 0
   \<and> outcomes (load_tasks (restart_env running_state) (\<lambda>n. ''2024-01-01T12:05:00'')
                 (restarted running_state))
       = [(''failed'', 0, Some ''Process died unexpectedly'', Some ''2024-01-01T12:05:00'')]
   \<and> tmux_trace (load_tasks (restart_env running_state) (\<lambda>n. ''2024-01-01T12:05:00'')
                    (restarted running_state)) = []"
  by code_simp

subsection \<open>Task record store\<close>

text \<open>
  C6 says that \<open>save_task\<close> persists the record atomically, by writing a temporary file
  and renaming it or an equivalent, so that no reader sees a partial record. The code
  opens the record file itself for writing and dumps the JSON into it. As amended: the
  write is in place, in two steps; after the first the record file is empty, and after
  the second, when \<open>save_task\<close> returns, it holds the full record.
\<close>

theorem save_task_in_place:
  "save_task_states e t s =
     [s\<lparr>task_files := AList.update (task_id t) [] (task_files s)\<rparr>, save_task e t s]
   \<and> map_of (task_files (hd (save_task_states e t s))) (task_id t) = Some []
   \<and> map_of (task_files (save_task e t s)) (task_id t) = Some (json_dumps e t)"
  by (simp add: save_task_def save_task_states_def update_conv')

text \<open>The claim as stated fails when the record of the queued example task is saved again
  as running: in between, the file is neither the old record nor the new one.\<close>

theorem save_task_partial_counterexample:
  "\<not> never_partial live_env (example_task\<lparr>status := ''running''\<rparr>) queued_state"
  by code_simp

subsection \<open>Execution driver\<close>

text \<open>
  C7 says that a dispatch sends the invocation once, followed at once by the marker step
  gated on its exit, and never ungated or twice. \<open>execute_task\<close> sends the built command
  as an input of its own and then sends it again inside the gated line. In the example
  the last two inputs of the session are the command and the command with the markers.
\<close>

theorem invocation_sent_twice:
  "drop 5 (sent_to (''ai-'' @ example_id) (tmux_trace running_state))
     = [''timeout 1800 crush run'',
        marker_cmd ''timeout 1800 crush run'' example_id ''2024-01-01T12:00:05''
          ''2024-01-01T12:00:05'']
   \<and> length (filter (prefix ''timeout 1800 crush run'')
               (sent_to (''ai-'' @ example_id) (tmux_trace running_state))) = 2"
  by code_simp

subsection \<open>Submission\<close>

lemma validate_task_iff:
  "validate_task e t \<longleftrightarrow> \<not> falsy (tool t) \<and> \<not> falsy (command t) \<and> known_tool e (tool t)"
proof (cases "tool t")
  case None
  then show ?thesis by (simp add: validate_task_def known_tool_def falsy_def)
next
  case (Some n)
  have "(map_of (ai_tools e) n = None) = (n \<notin> fst ` set (ai_tools e))"
    by (rule map_of_eq_None_iff)
  with Some show ?thesis
    by (cases "map_of (ai_tools e) n") (auto simp: validate_task_def known_tool_def)
qed

text \<open>
  C8 says that \<open>create_task\<close> fails exactly when the tool or the command of the request
  is missing or the tool is not in the tool table, that a failed submission leaves disk,
  task map and queue as they were, and that a successful one returns the id of a queued
  task. \<open>validate_task\<close> tests the two fields with \<open>not task.get(field)\<close>, which also
  rejects a field that is present and empty. As amended: \<open>create_task\<close> fails exactly
  when the tool or the command is missing or empty, or the tool is not a key of the tool
  table; on failure the state is unchanged; on success the returned id is in the task
  map with status queued, its record is on disk, and the id is at the end of the queue.
\<close>

theorem create_task_rejects_iff:
  "(\<exists>err. fst (create_task e req stamp hex8 created s) = Inl err)
     = (falsy (req_tool req) \<or> falsy (req_command req) \<or> \<not> known_tool e (req_tool req))
   \<and> (\<forall>err. fst (create_task e req stamp hex8 created s) = Inl err \<longrightarrow>
         snd (create_task e req stamp hex8 created s) = s)
   \<and> (\<forall>tid. fst (create_task e req stamp hex8 created s) = Inr tid \<longrightarrow>
         (\<exists>t. map_of (tasks (snd (create_task e req stamp hex8 created s))) tid = Some t
            \<and> status t = ''queued''
            \<and> map_of (task_files (snd (create_task e req stamp hex8 created s))) tid
                = Some (json_dumps e t))
         \<and> task_queue (snd (create_task e req stamp hex8 created s)) = task_queue s @ [tid])"
  by (simp add: create_task_def Let_def validate_task_iff new_task_def set_task_fields
      save_task_fields update_conv')

text \<open>The example request is accepted and queued; the same request with an empty command
  is rejected and changes nothing.\<close>

theorem create_task_rejects_iff_witness:
  "fst (create_task live_env example_request ''20240101-120000'' ''abcdef12''
          ''2024-01-01T12:00:00'' empty_daemon) = Inr example_id
   \<and> task_queue queued_state = [example_id]
   \<and> (\<exists>t. map_of (tasks queued_state) example_id = Some t \<and> status t = ''queued'')
   \<and> falsy (req_command (example_request\<lparr>req_command := Some []\<rparr>))
   \<and> snd (create_task live_env (example_request\<lparr>req_command := Some []\<rparr>)
            ''20240101-120000'' ''abcdef12'' ''2024-01-01T12:00:00'' empty_daemon)
       = empty_daemon"
proof -
  let ?ok = "create_task live_env example_request ''20240101-120000'' ''abcdef12''
               ''2024-01-01T12:00:00'' empty_daemon"
  let ?bad = "create_task live_env (example_request\<lparr>req_command := Some []\<rparr>)
                ''20240101-120000'' ''abcdef12'' ''2024-01-01T12:00:00'' empty_daemon"
  have accepted: "fst ?ok = Inr example_id"
    by code_simp
  have empty: "falsy (req_command (example_request\<lparr>req_command := Some []\<rparr>))"
    by (simp add: falsy_def)
  have queue: "task_queue empty_daemon = []"
    by (simp add: empty_daemon_def)
  note ok = create_task_rejects_iff
    [of live_env example_request "''20240101-120000''" "''abcdef12''"
      "''2024-01-01T12:00:00''" empty_daemon]
  note bad = create_task_rejects_iff
    [of live_env "example_request\<lparr>req_command := Some []\<rparr>" "''20240101-120000''"
      "''abcdef12''" "''2024-01-01T12:00:00''" empty_daemon]
  from bad empty obtain err where "fst ?bad = Inl err" by blast
  with bad have unchanged: "snd ?bad = empty_daemon" by blast
  from ok accepted queue
  have "task_queue (snd ?ok) = [example_id]"
       "\<exists>t. map_of (tasks (snd ?ok)) example_id = Some t \<and> status t = ''queued''"
    by auto
  with accepted empty unchanged show ?thesis
    by (simp add: queued_state_def)
qed

text \<open>The claim as stated fails for a request whose command is present and empty, with a
  tool of the table: it is rejected.\<close>

theorem create_task_empty_command_counterexample:
  "fst (create_task live_env (example_request\<lparr>req_command := Some []\<rparr>)
          ''20240101-120000'' ''abcdef12'' ''2024-01-01T12:00:00'' empty_daemon)
     = Inl (ValueError ''Invalid task configuration'')
   \<and> req_tool (example_request\<lparr>req_command := Some []\<rparr>) = Some ''crush''
   \<and> req_command (example_request\<lparr>req_command := Some []\<rparr>) = Some []
   \<and> map_of (ai_tools live_env) ''crush'' \<noteq> None"
  by code_simp

subsection \<open>Retention sweep\<close>




subsection \<open>Completion time\<close>

lemma marker_cmd_text:
  "marker_cmd task_command tid t_done t_fail =
     task_command @ '' && echo '' @ squote @ completed_marker tid t_done @ squote
       @ '' || echo '' @ squote @ failed_prefix tid @ t_fail @ '']'' @ squote"
  by (simp add: marker_cmd_def completion_cmd_def)

lemma finalize_clock_free:
  assumes "map_of (tasks s) tid = Some t" and "files s (log_file t) = Some log_content"
      and "contains (completed_prefix tid) log_content"
      and "search (match_completed tid) log_content = Some ts"
  shows "finalize_task_from_logs e later tid s = finalize_task_from_logs e now tid s"
  using assms by (simp add: finalize_task_from_logs_def)

lemma search_whole_sentinel:
  "search (match_completed tid) log_content = Some ts \<Longrightarrow> whole_sentinel tid log_content ts"
  using search_completed_marker [of tid log_content ts] by (simp add: whole_sentinel_def)

lemma whole_sentinel_found:
  "whole_sentinel tid log_content stamp \<Longrightarrow>
   \<exists>ts. search (match_completed tid) log_content = Some ts"
  using search_completed_exists [of tid stamp log_content] by (simp add: whole_sentinel_def)

text \<open>
  C10 says that every task finalized as completed through the success sentinel gets as
  its completion time the timestamp inside the sentinel found in the log, which the
  execution driver wrote into the marker command at dispatch, so that the completion
  time records the dispatch and not the end of the task or its finalization.
  \<open>finalize_task_from_logs\<close> takes the success branch on the opening of the sentinel
  alone and has a fallback of its own for a log without a whole sentinel. As amended,
  for a task id as \<open>create_task\<close> builds it and a log that holds the opening of the
  task's success sentinel: the task is finalized as completed; where the log holds a
  whole sentinel of the task (a non-empty timestamp closed by a bracket), the completion
  time is the timestamp of a whole sentinel in the log and the result does not depend
  on the clock of the finalization; where it holds none, the completion time is the
  clock reading of the finalization. Every successful dispatch ends with the command
  followed by the gated line, whose text is the command, \<open>&& echo\<close> of the sentinel with
  the clock reading of the dispatch, and \<open>|| echo\<close> of the failure sentinel.
\<close>

theorem completed_at_from_sentinel:
  assumes "plain_id tid"
      and "map_of (tasks s) tid = Some t"
      and "files s (log_file t) = Some log_content"
      and "contains (completed_prefix tid) log_content"
  shows "(\<exists>t1. map_of (tasks (finalize_task_from_logs e now tid s)) tid = Some t1
            \<and> status t1 = ''completed''
            \<and> ((\<exists>stamp. whole_sentinel tid log_content stamp) \<longrightarrow>
                 (\<exists>ts. completed_at t1 = Some ts \<and> whole_sentinel tid log_content ts)
                 \<and> finalize_task_from_logs e later tid s = finalize_task_from_logs e now tid s)
            \<and> ((\<nexists>stamp. whole_sentinel tid log_content stamp) \<longrightarrow>
                 completed_at t1 = Some now))
       \<and> (fst (execute_task e clk tid s0) \<longrightarrow>
            (\<exists>t0 task_command before.
               map_of (tasks s0) tid = Some t0
               \<and> tmux_trace (snd (execute_task e clk tid s0)) =
                   before @ [SendKeys (session_name t0) task_command,
                             SendKeys (session_name t0)
                               (task_command @ '' && echo '' @ squote
                                  @ completed_marker tid (t_completed clk) @ squote
                                  @ '' || echo '' @ squote @ failed_prefix tid
                                  @ t_failed clk @ '']'' @ squote)]))"
proof (intro conjI impI)
  let ?stamp = "case search (match_completed tid) log_content of None \<Rightarrow> now | Some ts \<Rightarrow> ts"
  let ?t1 = "extract_progress_from_logs e log_content
               (t\<lparr>status := ''completed'', progress := 100, completed_at := Some ?stamp\<rparr>)"
  have final: "map_of (tasks (finalize_task_from_logs e now tid s)) tid = Some ?t1"
    using assms(2-4) by (rule finalize_completed)
  have fields: "status ?t1 = ''completed''" "completed_at ?t1 = Some ?stamp"
    by (simp_all add: extract_progress_fields)
  have whole: "(\<exists>ts. completed_at ?t1 = Some ts \<and> whole_sentinel tid log_content ts)
               \<and> finalize_task_from_logs e later tid s = finalize_task_from_logs e now tid s"
    if "\<exists>stamp. whole_sentinel tid log_content stamp"
  proof -
    from that whole_sentinel_found obtain ts
      where ts: "search (match_completed tid) log_content = Some ts" by blast
    from ts have "completed_at ?t1 = Some ts" by (simp add: extract_progress_fields)
    moreover from ts have "whole_sentinel tid log_content ts" by (rule search_whole_sentinel)
    moreover have "finalize_task_from_logs e later tid s = finalize_task_from_logs e now tid s"
      using assms(2-4) ts by (rule finalize_clock_free)
    ultimately show ?thesis by blast
  qed
  have none: "completed_at ?t1 = Some now"
    if "\<nexists>stamp. whole_sentinel tid log_content stamp"
  proof (cases "search (match_completed tid) log_content")
    case None
    then show ?thesis by (simp add: extract_progress_fields)
  next
    case (Some ts)
    then have "whole_sentinel tid log_content ts" by (rule search_whole_sentinel)
    with that show ?thesis by blast
  qed
  from final fields(1) whole none
  show "\<exists>t1. map_of (tasks (finalize_task_from_logs e now tid s)) tid = Some t1
          \<and> status t1 = ''completed''
          \<and> ((\<exists>stamp. whole_sentinel tid log_content stamp) \<longrightarrow>
               (\<exists>ts. completed_at t1 = Some ts \<and> whole_sentinel tid log_content ts)
               \<and> finalize_task_from_logs e later tid s = finalize_task_from_logs e now tid s)
          \<and> ((\<nexists>stamp. whole_sentinel tid log_content stamp) \<longrightarrow>
               completed_at t1 = Some now)"
    by blast
next
  assume "fst (execute_task e clk tid s0)"
  from execute_task_sends [OF this] obtain t0 task_command before
    where "map_of (tasks s0) tid = Some t0"
      and "tmux_trace (snd (execute_task e clk tid s0)) =
             before @ [SendKeys (session_name t0) task_command,
                       SendKeys (session_name t0)
                         (marker_cmd task_command tid (t_completed clk) (t_failed clk))]"
    by blast
  then show "\<exists>t0 task_command before.
          map_of (tasks s0) tid = Some t0
          \<and> tmux_trace (snd (execute_task e clk tid s0)) =
              before @ [SendKeys (session_name t0) task_command,
                        SendKeys (session_name t0)
                          (task_command @ '' && echo '' @ squote
                             @ completed_marker tid (t_completed clk) @ squote
                             @ '' || echo '' @ squote @ failed_prefix tid
                             @ t_failed clk @ '']'' @ squote)]"
    unfolding marker_cmd_text by blast
qed

text \<open>The example task was dispatched at 12:00:05 and its session was found ended at
  12:10:00. With the whole sentinel in the log the completion time is the one of the
  dispatch, whatever the clock of the finalization reads; with the log cut off inside
  the sentinel it is the time of the finalization.\<close>

theorem completed_at_from_sentinel_witness:
  "plain_id example_id
   \<and> fst (execute_task live_env example_clock example_id queued_state)
   \<and> last (sent_to (''ai-'' @ example_id) (tmux_trace running_state))
       = ''timeout 1800 crush run && echo '' @ squote
           @ completed_marker example_id (t_completed example_clock) @ squote
           @ '' || echo '' @ squote @ failed_prefix example_id
           @ t_failed example_clock @ '']'' @ squote
   \<and> whole_sentinel example_id success_log (t_completed example_clock)
   \<and> completions (finalize_task_from_logs ended_env ''2024-01-01T12:10:00'' example_id
                    (with_log success_log running_state))
       = [(''completed'', Some (t_completed example_clock))]
   \<and> finalize_task_from_logs ended_env ''2024-01-01T12:40:00'' example_id
        (with_log success_log running_state)
       = finalize_task_from_logs ended_env ''2024-01-01T12:10:00'' example_id
           (with_log success_log running_state)
   \<and> contains (completed_prefix example_id) truncated_log
   \<and> completions (finalize_task_from_logs ended_env ''2024-01-01T12:10:00'' example_id
                    (with_log truncated_log running_state))
       = [(''completed'', Some ''2024-01-01T12:10:00'')]"
proof -
  let ?s = "with_log success_log running_state"
  let ?t = "example_task\<lparr>status := ''running'', started_at := Some ''2024-01-01T12:00:05''\<rparr>"
  have plain: "plain_id example_id"
    by code_simp
  have task: "map_of (tasks ?s) example_id = Some ?t"
    by code_simp
  have log_there: "files ?s (log_file ?t) = Some success_log"
    by code_simp
  have starts: "contains (completed_prefix example_id) success_log"
    by code_simp
  have whole: "whole_sentinel example_id success_log (t_completed example_clock)"
    by code_simp
  have sent: "fst (execute_task live_env example_clock example_id queued_state)"
    by code_simp
  have last_input:
    "last (sent_to (''ai-'' @ example_id) (tmux_trace running_state))
       = ''timeout 1800 crush run && echo '' @ squote
           @ completed_marker example_id (t_completed example_clock) @ squote
           @ '' || echo '' @ squote @ failed_prefix example_id
           @ t_failed example_clock @ '']'' @ squote"
    by code_simp
  have direct:
    "completions (finalize_task_from_logs ended_env ''2024-01-01T12:10:00'' example_id ?s)
       = [(''completed'', Some (t_completed example_clock))]"
    by code_simp
  have cut: "contains (completed_prefix example_id) truncated_log"
    "completions (finalize_task_from_logs ended_env ''2024-01-01T12:10:00'' example_id
                    (with_log truncated_log running_state))
       = [(''completed'', Some ''2024-01-01T12:10:00'')]"
    by code_simp+
  from completed_at_from_sentinel
         [where e = ended_env and now = "''2024-01-01T12:10:00''"
            and later = "''2024-01-01T12:40:00''",
          OF plain task log_there starts] whole
  have "finalize_task_from_logs ended_env ''2024-01-01T12:40:00'' example_id ?s
          = finalize_task_from_logs ended_env ''2024-01-01T12:10:00'' example_id ?s"
    by blast
  with plain sent last_input whole direct cut show ?thesis
    by simp
qed

text \<open>The claim as stated fails for a log that holds the opening of the sentinel and no
  timestamp: the task is finalized as completed, and its completion time is the clock of
  the finalization (12:10:00, or 12:40:00 had the monitor come by then), not the reading
  of the dispatch (12:00:05).\<close>

theorem completed_at_opening_only_counterexample:
  "contains (completed_prefix example_id) truncated_log
   \<and> t_completed example_clock = ''2024-01-01T12:00:05''
   \<and> completions (finalize_task_from_logs ended_env ''2024-01-01T12:10:00'' example_id
                    (with_log truncated_log running_state))
       = [(''completed'', Some ''2024-01-01T12:10:00'')]
   \<and> completions (finalize_task_from_logs ended_env ''2024-01-01T12:40:00'' example_id
                    (with_log truncated_log running_state))
       = [(''completed'', Some ''2024-01-01T12:40:00'')]"
  by code_simp

end
